theory Spec2Isabelle
  imports Main "HOL-Library.Sublist"
begin

text \<open>
  A model of \<open>export-intune-apps\<close>: a command-line program that reads the
  application inventory of a device-management service, stores it in the table
  \<open>app\<close> of a local SQLite database, adds store metadata to the rows, and exports
  the table. The definitions follow \<open>intune-export.js\<close> function by function; the
  database is the list of the rows of its one table, and the services the program
  calls (the store providers, the date parser, the serializers) are parameters.
\<close>

section \<open>JavaScript strings\<close>

text \<open>
  A JavaScript string is modelled as a \<^typ>\<open>string\<close>, a list of code units. Every
  separator and prefix the program searches for is ASCII, so the operations below
  behave the same on UTF-16 code units and on bytes.

  \<^item> \<open>s.startsWith(p)\<close> is \<^term>\<open>prefix p s\<close>;
  \<^item> \<open>s.includes(t)\<close> is \<open>str_includes s t\<close>: \<open>t\<close> occurs at some position of \<open>s\<close>;
  \<^item> \<open>s.replace(pat, rep)\<close> with a string pattern replaces the first occurrence
    of \<open>pat\<close> only (\<open>replace_first\<close>);
  \<^item> \<open>s.split(c)\<close> with a one-character separator is \<open>str_split c s\<close>; the array
    it returns always has at least one element.
\<close>

fun str_includes :: "string \<Rightarrow> string \<Rightarrow> bool" where
  "str_includes [] t = (t = [])"
| "str_includes (c # cs) t = (prefix t (c # cs) \<or> str_includes cs t)"

fun replace_first :: "string \<Rightarrow> string \<Rightarrow> string \<Rightarrow> string" where
  "replace_first pat rep [] = (if pat = [] then rep else [])"
| "replace_first pat rep (c # cs) =
     (if prefix pat (c # cs) then rep @ drop (length pat) (c # cs)
      else c # replace_first pat rep cs)"

fun str_split :: "char \<Rightarrow> string \<Rightarrow> string list" where
  "str_split sep [] = [[]]"
| "str_split sep (c # cs) =
     (if c = sep then [] # str_split sep cs
      else (case str_split sep cs of
              [] \<Rightarrow> [[c]]
            | seg # segs \<Rightarrow> (c # seg) # segs))"

section \<open>The store-URL resolver\<close>

text \<open>
  \<open>getPackageOrItunesId(url)\<close>. The result \<open>null\<close> is \<^term>\<open>None\<close>. The two
  prefixes are tested in the order of the source; \<open>split("&")[0]\<close> is the head of
  the split and \<open>parts[parts.length - 1]\<close> its last element (the split is never
  empty, lemma \<open>str_split_nonempty\<close>).
\<close>

definition play_prefix :: string where
  "play_prefix = ''https://play.google.com/store/apps/details?id=''"

definition apple_prefix :: string where
  "apple_prefix = ''https://apps.apple.com/us/app/''"

definition getPackageOrItunesId :: "string \<Rightarrow> string option" where
  "getPackageOrItunesId url =
     (if prefix play_prefix url then
        (let url1 = replace_first play_prefix [] url;
             url2 = hd (str_split CHR ''&'' url1)
         in Some url2)
      else if prefix apple_prefix url then
        (let url1 = replace_first apple_prefix [] url;
             url2 = hd (str_split CHR ''?'' url1);
             parts = str_split CHR ''/'' url2
         in Some (replace_first ''id'' [] (last parts)))
      else None)"

text \<open>
  The iOS policy in the words of the specification, for comparison with the code:
  strip the fixed prefix, keep what stands before the first \<open>?\<close>, split on \<open>/\<close>, take
  the last segment, and strip a leading \<open>id\<close> token from it.
\<close>

definition strip_leading_id :: "string \<Rightarrow> string" where
  "strip_leading_id seg = (if prefix ''id'' seg then drop 2 seg else seg)"

definition spec_itunes_id :: "string \<Rightarrow> string" where
  "spec_itunes_id u =
     strip_leading_id
       (last (str_split CHR ''/'' (hd (str_split CHR ''?'' (drop (length apple_prefix) u)))))"

section \<open>The app table\<close>

text \<open>
  The table \<open>app\<close> that \<open>initAppDb\<close> creates: one record field per column, in the
  order of the \<open>CREATE TABLE\<close> statement. The column \<open>id\<close> is called \<open>rowid\<close> here. A
  column holds SQL \<open>NULL\<close>, a text or an integer; the one \<open>REAL\<close> column, \<open>score\<close>, is
  only passed through by the program and numbers are modelled as integers.
\<close>

datatype sqlval = SNull | SText string | SInt int

record row =
  rowid :: nat
  intuneAppId :: sqlval
  platformAppKey :: sqlval
  packageId :: sqlval
  itunesId :: sqlval
  appIdentifier :: sqlval
  platform :: sqlval
  title :: sqlval
  url :: sqlval
  description :: sqlval
  minInstalls :: sqlval
  maxInstalls :: sqlval
  icon :: sqlval
  primaryGenre :: sqlval
  releasedAt :: sqlval
  updatedAt :: sqlval
  developerId :: sqlval
  developerEmail :: sqlval
  developer :: sqlval
  developerUrl :: sqlval
  developerWebsite :: sqlval
  developerAddress :: sqlval
  score :: sqlval
  reviews :: sqlval
  ratings :: sqlval
  ratingsHistogram :: sqlval

text \<open>The table is the list of its rows, in insertion order.\<close>

type_synonym db = "row list"

text \<open>
  \<open>CREATE TABLE IF NOT EXISTS\<close>: a table that exists is kept as it is, a missing one
  (\<^term>\<open>None\<close>) is created empty.
\<close>

definition initAppDb :: "db option \<Rightarrow> db" where
  "initAppDb existing = (case existing of None \<Rightarrow> [] | Some t \<Rightarrow> t)"

text \<open>
  SQL equality, as in \<open>WHERE platformAppKey = ?\<close> and in a \<open>UNIQUE\<close> constraint:
  \<open>NULL\<close> equals nothing, itself included.
\<close>

definition sql_eq :: "sqlval \<Rightarrow> sqlval \<Rightarrow> bool" where
  "sql_eq a b = (a \<noteq> SNull \<and> b \<noteq> SNull \<and> a = b)"

text \<open>\<open>SELECT * FROM app WHERE platformAppKey = ?\<close>\<close>

definition select_by_key :: "sqlval \<Rightarrow> db \<Rightarrow> row list" where
  "select_by_key k t = filter (\<lambda>r. sql_eq (platformAppKey r) k) t"

text \<open>
  \<open>id INTEGER PRIMARY KEY AUTOINCREMENT\<close>: a new row gets an id above every id of
  the table (the program never deletes a row).
\<close>

definition next_rowid :: "db \<Rightarrow> nat" where
  "next_rowid t = Suc (foldr max (map rowid t) 0)"

datatype ingest_error = TypeError | SqliteConstraint

text \<open>
  \<open>INSERT INTO app (intuneAppId, platformAppKey, packageId, itunesId, appIdentifier,
  platform) VALUES (?, ?, ?, ?, ?, ?)\<close>. The columns \<open>intuneAppId\<close> and
  \<open>platformAppKey\<close> are \<open>UNIQUE\<close>: the statement fails, and the table is left as it
  was, when a row already holds the same non-null value in one of them. Otherwise
  the row is appended; the columns the statement does not name are \<open>NULL\<close>.
\<close>

definition unique_violation :: "row \<Rightarrow> db \<Rightarrow> bool" where
  "unique_violation new t =
     (\<exists>r \<in> set t. sql_eq (intuneAppId r) (intuneAppId new) \<or>
                   sql_eq (platformAppKey r) (platformAppKey new))"

definition insert_values ::
  "sqlval \<Rightarrow> sqlval \<Rightarrow> sqlval \<Rightarrow> sqlval \<Rightarrow> sqlval \<Rightarrow> sqlval \<Rightarrow> row" where
  "insert_values v1 v2 v3 v4 v5 v6 =
     \<lparr> rowid = 0, intuneAppId = v1, platformAppKey = v2, packageId = v3, itunesId = v4,
       appIdentifier = v5, platform = v6, title = SNull, url = SNull,
       description = SNull, minInstalls = SNull, maxInstalls = SNull, icon = SNull,
       primaryGenre = SNull, releasedAt = SNull, updatedAt = SNull,
       developerId = SNull, developerEmail = SNull, developer = SNull,
       developerUrl = SNull, developerWebsite = SNull, developerAddress = SNull,
       score = SNull, reviews = SNull, ratings = SNull, ratingsHistogram = SNull \<rparr>"

definition sql_insert :: "row \<Rightarrow> db \<Rightarrow> ingest_error + db" where
  "sql_insert new t =
     (if unique_violation new t then Inl SqliteConstraint
      else Inr (t @ [new\<lparr>rowid := next_rowid t\<rparr>]))"

section \<open>Ingestion\<close>

text \<open>
  An inventory record of the management API, with the four properties the program
  reads: \<open>app["@odata.type"]\<close>, \<open>app.id\<close>, \<open>app.packageId\<close> and \<open>app.appStoreUrl\<close>. All
  four are strings in the API's schema. \<^term>\<open>None\<close> stands for \<open>null\<close> and for a
  missing property (\<open>undefined\<close>): the program treats the two alike, both are falsy,
  a method call on either throws a \<open>TypeError\<close>, and both are bound as SQL \<open>NULL\<close>.
\<close>

record app =
  odata_type :: "string option"
  app_id :: "string option"
  app_packageId :: "string option"
  appStoreUrl :: "string option"

text \<open>A string is truthy unless it is empty; \<open>a || b\<close> is \<open>a\<close> when \<open>a\<close> is truthy, else \<open>b\<close>.\<close>

definition truthy :: "string option \<Rightarrow> bool" where
  "truthy v = (case v of None \<Rightarrow> False | Some s \<Rightarrow> s \<noteq> [])"

definition js_or :: "string option \<Rightarrow> string option \<Rightarrow> string option" where
  "js_or a b = (if truthy a then a else b)"

text \<open>
  A value inside a template literal. The only value that reaches the literal as
  \<^term>\<open>None\<close> is \<open>itunesId\<close>, which is \<open>null\<close> (never \<open>undefined\<close>), so it prints
  as \<open>null\<close>.
\<close>

definition template_str :: "string option \<Rightarrow> string" where
  "template_str v = (case v of None \<Rightarrow> ''null'' | Some s \<Rightarrow> s)"

text \<open>A parameter bound to a statement: \<open>null\<close> and \<open>undefined\<close> are stored as \<open>NULL\<close>.\<close>

definition bind_str :: "string option \<Rightarrow> sqlval" where
  "bind_str v = (case v of None \<Rightarrow> SNull | Some s \<Rightarrow> SText s)"

text \<open>The platform of a type discriminator; \<^term>\<open>None\<close> is the unsupported platform.\<close>

definition detect_platform :: "string \<Rightarrow> string option" where
  "detect_platform t =
     (if str_includes t ''android'' then Some ''android''
      else if str_includes t ''ios'' then Some ''ios''
      else None)"

definition compose_key :: "string \<Rightarrow> string option \<Rightarrow> string option \<Rightarrow> string" where
  "compose_key plat pkg itunes = plat @ ''-'' @ template_str (js_or pkg itunes)"

text \<open>
  What one iteration of the loop of \<open>addAppsToDb\<close> did, as its log line tells:
  \<open>Unsupported platform\<close>, \<open>already exists\<close>, \<open>Inserted\<close>, or the error the
  \<open>catch\<close> clause logged.
\<close>

datatype outcome = Unsupported | AlreadyExists | Inserted | Failed ingest_error

text \<open>
  The body of the \<open>try\<close> block for one record. \<^term>\<open>Inl\<close> is an exception thrown
  inside the block: the \<open>TypeError\<close> of \<open>includes\<close> or \<open>startsWith\<close> called on a
  value that is no string, or the constraint error of the \<open>INSERT\<close>. \<^term>\<open>Inr\<close>
  is the block left by \<open>continue\<close> or run to its end.
\<close>

definition addApp_try :: "db \<Rightarrow> app \<Rightarrow> ingest_error + outcome \<times> db" where
  "addApp_try t a =
     (case odata_type a of
        None \<Rightarrow> Inl TypeError
      | Some ty \<Rightarrow>
          (case detect_platform ty of
             None \<Rightarrow> Inr (Unsupported, t)
           | Some plat \<Rightarrow>
               (case (if plat = ''ios''
                      then (case appStoreUrl a of
                              None \<Rightarrow> Inl TypeError
                            | Some u \<Rightarrow> Inr (getPackageOrItunesId u))
                      else Inr None) of
                  Inl e \<Rightarrow> Inl e
                | Inr itunes \<Rightarrow>
                    (let pkg = app_packageId a;
                         ident = js_or pkg itunes;
                         k = compose_key plat pkg itunes
                     in if select_by_key (SText k) t \<noteq> [] then Inr (AlreadyExists, t)
                        else (case sql_insert
                                     (insert_values (bind_str (app_id a)) (SText k)
                                        (bind_str pkg) (bind_str itunes) (bind_str ident)
                                        (SText plat)) t of
                                Inl e \<Rightarrow> Inl e
                              | Inr t' \<Rightarrow> Inr (Inserted, t'))))))"

text \<open>One iteration: the \<open>catch\<close> clause logs the error and the loop goes on.\<close>

definition addApp :: "db \<Rightarrow> app \<Rightarrow> outcome \<times> db" where
  "addApp t a = (case addApp_try t a of Inl e \<Rightarrow> (Failed e, t) | Inr r \<Rightarrow> r)"

fun addAppsToDb :: "db \<Rightarrow> app list \<Rightarrow> db" where
  "addAppsToDb t [] = t"
| "addAppsToDb t (a # as) = addAppsToDb (snd (addApp t a)) as"

text \<open>The log of a run: the outcome of each record, in order.\<close>

fun outcomes :: "db \<Rightarrow> app list \<Rightarrow> outcome list" where
  "outcomes t [] = []"
| "outcomes t (a # as) = fst (addApp t a) # outcomes (snd (addApp t a)) as"

section \<open>Enrichment\<close>

text \<open>
  The values a store provider returns: \<open>undefined\<close>, \<open>null\<close>, a string, a number
  (an integer, as epoch milliseconds and counts are) or \<open>NaN\<close>. \<open>typeof v\<close> is
  \<open>"string"\<close> for \<^term>\<open>JString s\<close> and \<open>"number"\<close> for \<^term>\<open>JNumber n\<close> and \<^term>\<open>JNaN\<close>.
\<close>

datatype jsval = JUndefined | JNull | JString string | JNumber int | JNaN

text \<open>
  A value bound to a statement parameter, as the driver hands it to SQLite: a
  string as text, a number as a number, \<open>null\<close> and \<open>undefined\<close> as \<open>NULL\<close>, and so
  \<open>NaN\<close>, which SQLite does not store. What a column then holds depends on its
  declared type as well, see \<open>text_affinity\<close> and \<open>numeric_affinity\<close> below.
\<close>

definition bind_param :: "jsval \<Rightarrow> sqlval" where
  "bind_param v =
     (case v of
        JUndefined \<Rightarrow> SNull
      | JNull \<Rightarrow> SNull
      | JString s \<Rightarrow> SText s
      | JNumber n \<Rightarrow> SInt n
      | JNaN \<Rightarrow> SNull)"

text \<open>
  A column declared \<open>TEXT\<close> stores a number as its decimal text.
\<close>

definition digit_char :: "nat \<Rightarrow> char" where
  "digit_char d = ''0123456789'' ! d"

fun dec_nat :: "nat \<Rightarrow> string" where
  "dec_nat n = (if n < 10 then [digit_char n] else dec_nat (n div 10) @ [digit_char (n mod 10)])"

declare dec_nat.simps [simp del]

definition dec_int :: "int \<Rightarrow> string" where
  "dec_int i = (if i < 0 then CHR ''-'' # dec_nat (nat (- i)) else dec_nat (nat i))"

definition text_affinity :: "sqlval \<Rightarrow> sqlval" where
  "text_affinity v = (case v of SInt n \<Rightarrow> SText (dec_int n) | _ \<Rightarrow> v)"

text \<open>
  The properties of \<open>appMetadata\<close> the program reads. \<open>md_histogram\<close> is
  \<open>JSON.stringify(appMetadata.histogram)\<close>: a string, or \<open>undefined\<close> when the
  provider gave no histogram.
\<close>

record metadata =
  md_title :: jsval
  md_url :: jsval
  md_description :: jsval
  md_minInstalls :: jsval
  md_maxInstalls :: jsval
  md_icon :: jsval
  md_genre :: jsval
  md_primaryGenre :: jsval
  md_released :: jsval
  md_updated :: jsval
  md_developerId :: jsval
  md_developerEmail :: jsval
  md_developer :: jsval
  md_developerUrl :: jsval
  md_developerWebsite :: jsval
  md_developerAddress :: jsval
  md_score :: jsval
  md_reviews :: jsval
  md_ratings :: jsval
  md_histogram :: jsval

text \<open>
  A provider call (\<open>gplay.app\<close>, \<open>store.app\<close>) either returns, \<^term>\<open>None\<close> being a
  falsy result, or throws an error object; \<^term>\<open>Throws m\<close> carries the value of
  \<open>error.message\<close>.
\<close>

datatype provider_result = Returns "metadata option" | Throws jsval

text \<open>
  The outside world of the enrichment: the two providers, each a function of the
  identifier it is asked for; the date parser behind \<open>new Date(s).getTime()\<close>,
  which yields epoch milliseconds or, for a string that is no date, \<open>NaN\<close>
  (\<^term>\<open>None\<close>); and \<open>numeric_text\<close>, what SQLite stores for a text in a column
  declared \<open>INTEGER\<close> or \<open>REAL\<close>: the number the text denotes when it is a
  well-formed numeric literal, and the text itself otherwise.
\<close>

record env =
  gplay_app :: "sqlval \<Rightarrow> provider_result"
  store_app :: "sqlval \<Rightarrow> provider_result"
  Date_parse :: "string \<Rightarrow> int option"
  numeric_text :: "string \<Rightarrow> sqlval"

text \<open>
  A column declared \<open>INTEGER\<close> or \<open>REAL\<close> stores a number as a number and converts
  a text with \<open>numeric_text\<close>. (In the \<open>REAL\<close> column \<open>score\<close> an integer is stored
  as the floating-point number of the same value; the model, whose numbers are
  integers, does not tell the two apart.)
\<close>

definition numeric_affinity :: "env \<Rightarrow> sqlval \<Rightarrow> sqlval" where
  "numeric_affinity e v = (case v of SText s \<Rightarrow> numeric_text e s | _ \<Rightarrow> v)"

definition date_getTime :: "env \<Rightarrow> string \<Rightarrow> jsval" where
  "date_getTime e s = (case Date_parse e s of None \<Rightarrow> JNaN | Some ms \<Rightarrow> JNumber ms)"

text \<open>\<open>if (typeof v === "string") v = new Date(v).getTime()\<close>\<close>

definition to_millis :: "env \<Rightarrow> jsval \<Rightarrow> jsval" where
  "to_millis e v = (case v of JString s \<Rightarrow> date_getTime e s | _ \<Rightarrow> v)"

text \<open>
  \<open>if (typeof v === "number") v = Math.floor(v / 1000)\<close>; on integers \<open>div\<close> rounds
  down, as \<open>Math.floor\<close> does, and \<open>NaN\<close> stays \<open>NaN\<close>.
\<close>

definition to_seconds :: "jsval \<Rightarrow> jsval" where
  "to_seconds v = (case v of JNumber n \<Rightarrow> JNumber (n div 1000) | _ \<Rightarrow> v)"

text \<open>The four \<open>if\<close> statements on \<open>released\<close> and \<open>updated\<close>, in the order of the source.\<close>

definition normalize_dates :: "env \<Rightarrow> metadata \<Rightarrow> metadata" where
  "normalize_dates e m =
     (let m1 = m\<lparr>md_released := to_millis e (md_released m)\<rparr>;
          m2 = m1\<lparr>md_updated := to_millis e (md_updated m1)\<rparr>;
          m3 = m2\<lparr>md_released := to_seconds (md_released m2)\<rparr>;
          m4 = m3\<lparr>md_updated := to_seconds (md_updated m3)\<rparr>
      in m4)"

text \<open>\<open>UPDATE app SET ... WHERE platformAppKey = ?\<close>: every row the key matches is changed.\<close>

definition sql_update :: "sqlval \<Rightarrow> (row \<Rightarrow> row) \<Rightarrow> db \<Rightarrow> db" where
  "sql_update k f t = map (\<lambda>r. if sql_eq (platformAppKey r) k then f r else r) t"

text \<open>
  The \<open>SET\<close> clause of the metadata update, with its twenty parameters as they are
  bound.
\<close>

definition set_metadata :: "row \<Rightarrow> metadata \<Rightarrow> jsval \<Rightarrow> row \<Rightarrow> row" where
  "set_metadata appData m genre r =
     r\<lparr> packageId := packageId appData,
        title := bind_param (md_title m),
        url := bind_param (md_url m),
        description := bind_param (md_description m),
        minInstalls := bind_param (md_minInstalls m),
        maxInstalls := bind_param (md_maxInstalls m),
        icon := bind_param (md_icon m),
        primaryGenre := bind_param genre,
        releasedAt := bind_param (md_released m),
        updatedAt := bind_param (md_updated m),
        developerId := bind_param (md_developerId m),
        developerEmail := bind_param (md_developerEmail m),
        developer := bind_param (md_developer m),
        developerUrl := bind_param (md_developerUrl m),
        developerWebsite := bind_param (md_developerWebsite m),
        developerAddress := bind_param (md_developerAddress m),
        score := bind_param (md_score m),
        reviews := bind_param (md_reviews m),
        ratings := bind_param (md_ratings m),
        ratingsHistogram := bind_param (md_histogram m) \<rparr>"

text \<open>
  What the twenty assigned columns hold once the row is stored: each value passes
  through the affinity of its column's declared type. The column
  \<open>ratingsHistogram\<close> is declared \<open>BLOB\<close> and stores every value as it is bound.
\<close>

definition metadata_affinity :: "env \<Rightarrow> row \<Rightarrow> row" where
  "metadata_affinity e r =
     r\<lparr> packageId := text_affinity (packageId r),
        title := text_affinity (title r),
        url := text_affinity (url r),
        description := text_affinity (description r),
        minInstalls := numeric_affinity e (minInstalls r),
        maxInstalls := numeric_affinity e (maxInstalls r),
        icon := text_affinity (icon r),
        primaryGenre := text_affinity (primaryGenre r),
        releasedAt := numeric_affinity e (releasedAt r),
        updatedAt := numeric_affinity e (updatedAt r),
        developerId := text_affinity (developerId r),
        developerEmail := text_affinity (developerEmail r),
        developer := text_affinity (developer r),
        developerUrl := text_affinity (developerUrl r),
        developerWebsite := text_affinity (developerWebsite r),
        developerAddress := text_affinity (developerAddress r),
        score := numeric_affinity e (score r),
        reviews := numeric_affinity e (reviews r),
        ratings := numeric_affinity e (ratings r) \<rparr>"

text \<open>
  The \<open>try\<close> block of \<open>enrichAppMetadata\<close>: the provider is chosen by the row's
  platform; \<^term>\<open>None\<close> is the unsupported platform, where the function returns
  without a call.
\<close>

definition fetch_metadata :: "env \<Rightarrow> row \<Rightarrow> provider_result option" where
  "fetch_metadata e appData =
     (if platform appData = SText ''android'' then Some (gplay_app e (packageId appData))
      else if platform appData = SText ''ios'' then Some (store_app e (itunesId appData))
      else None)"

text \<open>
  \<open>enrichAppMetadata(appData, db)\<close>; \<open>appData\<close> is a row as the \<open>SELECT\<close> of \<open>main\<close>
  returned it. The function throws nothing: a provider error is caught and its
  message is bound to the title (a \<open>TEXT\<close> column), and an error of an \<open>UPDATE\<close>
  would only be logged by its callback.
\<close>

definition enrichAppMetadata :: "env \<Rightarrow> row \<Rightarrow> db \<Rightarrow> db" where
  "enrichAppMetadata e appData t =
     (case fetch_metadata e appData of
        None \<Rightarrow> t
      | Some (Throws msg) \<Rightarrow>
          sql_update (platformAppKey appData)
            (\<lambda>r. r\<lparr>title := text_affinity (bind_param msg)\<rparr>) t
      | Some (Returns None) \<Rightarrow> t
      | Some (Returns (Some m)) \<Rightarrow>
          (let m' = normalize_dates e m;
               genre = (if platform appData = SText ''android'' then md_genre m'
                        else md_primaryGenre m')
           in sql_update (platformAppKey appData)
                (\<lambda>r. metadata_affinity e (set_metadata appData m' genre r)) t))"

text \<open>\<open>SELECT * FROM app WHERE title IS NULL\<close>\<close>

definition select_title_null :: "db \<Rightarrow> row list" where
  "select_title_null t = filter (\<lambda>r. title r = SNull) t"

text \<open>
  The enrichment loop of \<open>main\<close>: the rows are selected once, before the loop, and
  enriched one after the other.
\<close>

fun enrich_loop :: "env \<Rightarrow> row list \<Rightarrow> db \<Rightarrow> db" where
  "enrich_loop e [] t = t"
| "enrich_loop e (a # as) t = enrich_loop e as (enrichAppMetadata e a t)"

definition enrich_pass :: "env \<Rightarrow> db \<Rightarrow> db" where
  "enrich_pass e t = enrich_loop e (select_title_null t) t"

text \<open>
  The \<open>UNIQUE\<close> constraint on \<open>platformAppKey\<close>, as a property of a table: no two
  rows hold the same non-null key.
\<close>

definition unique_keys :: "db \<Rightarrow> bool" where
  "unique_keys t = distinct (map platformAppKey (filter (\<lambda>r. platformAppKey r \<noteq> SNull) t))"

section \<open>Export\<close>

text \<open>
  \<open>exportToCsvAndJson(db, fileName)\<close>: \<open>SELECT * FROM app\<close> reads every row, and the
  rows are handed to the CSV parser (\<open>new Parser().parse\<close> of the package
  \<open>json2csv\<close>) and to \<open>JSON.stringify\<close>. The two serializers are not code of this
  program; they are parameters here, and the result is the content of the two
  files written.
\<close>

definition select_all :: "db \<Rightarrow> row list" where
  "select_all t = t"

definition exportToCsvAndJson ::
  "(row list \<Rightarrow> string) \<Rightarrow> (row list \<Rightarrow> string) \<Rightarrow> db \<Rightarrow> string \<times> string" where
  "exportToCsvAndJson parse_csv json_stringify t =
     (let rows = select_all t in (parse_csv rows, json_stringify rows))"

section \<open>Start-up\<close>

text \<open>
  What the start of the program reads: the two command-line flags (\<^term>\<open>None\<close>
  when the flag is not given) and three environment variables (\<^term>\<open>None\<close> when
  unset).
\<close>

record invocation =
  flag_tenantId :: "string option"
  flag_clientId :: "string option"
  env_TENANT_ID :: "string option"
  env_CLIENT_ID :: "string option"
  env_CLIENT_SECRET :: "string option"

text \<open>
  \<open>program.parse(process.argv)\<close>. Both flags are declared with \<open>requiredOption\<close>:
  when one of them is not given, the parser reports the missing option and ends the
  process with exit code 1 (\<^term>\<open>Inl\<close>). Otherwise it returns the two values.
\<close>

definition program_parse :: "invocation \<Rightarrow> nat + string \<times> string" where
  "program_parse cl =
     (case flag_tenantId cl of
        None \<Rightarrow> Inl 1
      | Some tid \<Rightarrow>
          (case flag_clientId cl of
             None \<Rightarrow> Inl 1
           | Some cid \<Rightarrow> Inr (tid, cid)))"

text \<open>
  The program up to its first network call: it exits with a code, or goes on to
  \<open>getToken(opts.tenantId, opts.clientId, opts.clientSecret)\<close>.
\<close>

datatype startup = Exit nat | GetToken "string option" "string option" "string option"

definition startup :: "invocation \<Rightarrow> startup" where
  "startup cl =
     (case program_parse cl of
        Inl code \<Rightarrow> Exit code
      | Inr (tid, cid) \<Rightarrow>
          (let tenantId = js_or (Some tid) (env_TENANT_ID cl);
               clientId = js_or (Some cid) (env_CLIENT_ID cl);
               clientSecret = env_CLIENT_SECRET cl
           in if \<not> truthy tenantId \<or> \<not> truthy clientId \<or> \<not> truthy clientSecret
              then Exit 1
              else GetToken tenantId clientId clientSecret))"

section \<open>Properties of the string operations\<close>

lemma str_split_nonempty: "str_split sep s \<noteq> []"
  by (induction s) (auto split: list.splits)

lemma hd_str_split: "hd (str_split sep s) = takeWhile (\<lambda>c. c \<noteq> sep) s"
  by (induction s) (auto split: list.splits simp: str_split_nonempty)

lemma length_str_split_snoc:
  "length (str_split sep (s @ [c])) = length (str_split sep s) + (if c = sep then 1 else 0)"
  by (induction s) (auto split: list.splits simp: str_split_nonempty)

lemma last_str_split_snoc:
  "last (str_split sep (s @ [c])) = (if c = sep then [] else last (str_split sep s) @ [c])"
proof (induction s)
  case Nil
  show ?case by simp
next
  case (Cons x xs)
  obtain seg segs where sp: "str_split sep xs = seg # segs"
    using str_split_nonempty [of sep xs] by (cases "str_split sep xs") auto
  obtain seg' segs' where sp': "str_split sep (xs @ [c]) = seg' # segs'"
    using str_split_nonempty [of sep "xs @ [c]"] by (cases "str_split sep (xs @ [c])") auto
  note len = length_str_split_snoc [of sep xs c]
  show ?case
  proof (cases "x = sep")
    case True
    then show ?thesis using Cons.IH by (simp add: str_split_nonempty)
  next
    case False
    then show ?thesis
      using sp sp' Cons.IH len by (cases segs; cases segs') (auto split: if_splits)
  qed
qed

lemma last_str_split: "last (str_split sep s) = rev (takeWhile (\<lambda>c. c \<noteq> sep) (rev s))"
  by (induction s rule: rev_induct) (auto simp: last_str_split_snoc)

lemma replace_first_prefix:
  "prefix pat s \<Longrightarrow> replace_first pat rep s = rep @ drop (length pat) s"
  by (cases s) auto

text \<open>\<open>str_includes\<close> is containment: the text occurs somewhere in the string.\<close>

lemma str_includes_iff: "str_includes s t \<longleftrightarrow> (\<exists>p q. s = p @ t @ q)"
proof (induction s)
  case Nil
  show ?case by auto
next
  case (Cons c cs)
  show ?case
  proof
    assume "str_includes (c # cs) t"
    then consider "prefix t (c # cs)" | "str_includes cs t" by auto
    then show "\<exists>p q. c # cs = p @ t @ q"
    proof cases
      case 1
      then obtain q where "c # cs = t @ q" by (auto simp: prefix_def)
      then have "c # cs = [] @ t @ q" by simp
      then show ?thesis by blast
    next
      case 2
      then obtain p q where "cs = p @ t @ q" using Cons.IH by blast
      then have "c # cs = (c # p) @ t @ q" by simp
      then show ?thesis by blast
    qed
  next
    assume "\<exists>p q. c # cs = p @ t @ q"
    then obtain p q where pq: "c # cs = p @ t @ q" by blast
    show "str_includes (c # cs) t"
    proof (cases p)
      case Nil
      then have "prefix t (c # cs)" using pq by (simp add: prefix_def)
      then show ?thesis by simp
    next
      case (Cons x p')
      then have "cs = p' @ t @ q" using pq by simp
      then have "str_includes cs t" using Cons.IH by blast
      then show ?thesis by simp
    qed
  qed
qed

section \<open>Properties of the resolver\<close>

lemma getPackageOrItunesId_play:
  assumes "prefix play_prefix u"
  shows "getPackageOrItunesId u =
           Some (takeWhile (\<lambda>c. c \<noteq> CHR ''&'') (drop (length play_prefix) u))"
  using assms by (simp add: getPackageOrItunesId_def replace_first_prefix hd_str_split)

lemma not_play_if_apple: "prefix apple_prefix u \<Longrightarrow> \<not> prefix play_prefix u"
  by (auto simp: prefix_def apple_prefix_def play_prefix_def)

lemma getPackageOrItunesId_apple:
  assumes "prefix apple_prefix u"
  shows "getPackageOrItunesId u =
           Some (replace_first ''id'' []
                  (rev (takeWhile (\<lambda>c. c \<noteq> CHR ''/'')
                     (rev (takeWhile (\<lambda>c. c \<noteq> CHR ''?'') (drop (length apple_prefix) u))))))"
  using assms not_play_if_apple [OF assms]
  by (simp add: getPackageOrItunesId_def replace_first_prefix hd_str_split last_str_split)

text \<open>
  \<open>replace_first\<close> leaves a string without the pattern as it is, and replaces the
  first occurrence of the pattern, the one with the shortest text before it.
\<close>

lemma replace_first_none: "\<not> str_includes s pat \<Longrightarrow> replace_first pat rep s = s"
  by (induction s) auto

lemma replace_first_occurrence:
  assumes "pat \<noteq> []"
    and "\<forall>p' q'. p @ pat @ q = p' @ pat @ q' \<longrightarrow> length p \<le> length p'"
  shows "replace_first pat rep (p @ pat @ q) = p @ rep @ q"
  using assms(2)
proof (induction p)
  case Nil
  then show ?case using assms(1) by (cases pat) auto
next
  case (Cons x p)
  have notpre: "\<not> prefix pat (x # p @ pat @ q)"
  proof
    assume "prefix pat (x # p @ pat @ q)"
    then obtain q' where "x # p @ pat @ q = pat @ q'" by (auto simp: prefix_def)
    then have "(x # p) @ pat @ q = [] @ pat @ q'" by simp
    then have "length (x # p) \<le> length ([] :: string)" using Cons.prems by blast
    then show False by simp
  qed
  have "\<forall>p' q'. p @ pat @ q = p' @ pat @ q' \<longrightarrow> length p \<le> length p'"
  proof (intro allI impI)
    fix p' q' assume "p @ pat @ q = p' @ pat @ q'"
    then have "(x # p) @ pat @ q = (x # p') @ pat @ q'" by simp
    then have "length (x # p) \<le> length (x # p')" using Cons.prems by blast
    then show "length p \<le> length p'" by simp
  qed
  then have "replace_first pat rep (p @ pat @ q) = p @ rep @ q" by (rule Cons.IH)
  then show ?case using notpre by simp
qed

text \<open>
  Claim C5. The resolver maps the Android URL of the example to
  \<open>com.einnovation.temu\<close>; for every URL that starts with the Google Play details
  prefix it returns what follows the prefix, up to the first \<open>&\<close>.
\<close>

theorem getPackageOrItunesId_play_url:
  "getPackageOrItunesId
     ''https://play.google.com/store/apps/details?id=com.einnovation.temu&hl=en_US''
     = Some ''com.einnovation.temu'' \<and>
   (\<forall>u. prefix play_prefix u \<longrightarrow>
      getPackageOrItunesId u =
        Some (takeWhile (\<lambda>c. c \<noteq> CHR ''&'') (drop (length play_prefix) u)))"
proof -
  have "getPackageOrItunesId
     ''https://play.google.com/store/apps/details?id=com.einnovation.temu&hl=en_US''
     = Some ''com.einnovation.temu''"
    by (simp add: getPackageOrItunesId_def play_prefix_def)
  then show ?thesis using getPackageOrItunesId_play by blast
qed

theorem getPackageOrItunesId_play_url_witness:
  "prefix play_prefix ''https://play.google.com/store/apps/details?id=org.mozilla.firefox'' \<and>
   getPackageOrItunesId ''https://play.google.com/store/apps/details?id=org.mozilla.firefox''
     = Some ''org.mozilla.firefox''"
proof -
  have p: "prefix play_prefix ''https://play.google.com/store/apps/details?id=org.mozilla.firefox''"
    by (simp add: play_prefix_def)
  have "getPackageOrItunesId ''https://play.google.com/store/apps/details?id=org.mozilla.firefox''
     = Some (takeWhile (\<lambda>c. c \<noteq> CHR ''&'')
         (drop (length play_prefix)
            ''https://play.google.com/store/apps/details?id=org.mozilla.firefox''))"
    using getPackageOrItunesId_play_url p by blast
  then show ?thesis using p by (simp add: play_prefix_def)
qed

text \<open>
  Claim C4, as stated, fails. The code does not strip a leading \<open>id\<close> token: it
  removes the first occurrence of \<open>id\<close>, wherever it stands in the last segment.
  For a last segment \<open>video-editor\<close> the code returns \<open>veo-editor\<close>, where stripping
  a leading token would leave \<open>video-editor\<close>.
\<close>

theorem leading_id_counterexample:
  "prefix apple_prefix ''https://apps.apple.com/us/app/video-editor'' \<and>
   getPackageOrItunesId ''https://apps.apple.com/us/app/video-editor'' = Some ''veo-editor'' \<and>
   spec_itunes_id ''https://apps.apple.com/us/app/video-editor'' = ''video-editor'' \<and>
   getPackageOrItunesId ''https://apps.apple.com/us/app/video-editor''
     \<noteq> Some (spec_itunes_id ''https://apps.apple.com/us/app/video-editor'')"
  by (simp add: getPackageOrItunesId_def spec_itunes_id_def strip_leading_id_def
        apple_prefix_def play_prefix_def)

text \<open>
  Claim C4, amended. The resolver maps the iOS URL of the example to \<open>284882215\<close>.
  For every URL that starts with the Apple prefix it strips the prefix, keeps what
  stands before the first \<open>?\<close>, takes what follows the last \<open>/\<close> of that, and removes
  the first occurrence of \<open>id\<close> from this last segment. When the last segment
  starts with \<open>id\<close>, that occurrence is the leading token: the result is the rest of
  the segment, and code and specification agree.
\<close>

theorem getPackageOrItunesId_apple_url:
  "getPackageOrItunesId ''https://apps.apple.com/us/app/facebook/id284882215?uo=4''
     = Some ''284882215'' \<and>
   (\<forall>u. prefix apple_prefix u \<longrightarrow>
      getPackageOrItunesId u =
        Some (replace_first ''id'' []
               (rev (takeWhile (\<lambda>c. c \<noteq> CHR ''/'')
                  (rev (takeWhile (\<lambda>c. c \<noteq> CHR ''?'') (drop (length apple_prefix) u))))))) \<and>
   (\<forall>u n. prefix apple_prefix u \<and>
      rev (takeWhile (\<lambda>c. c \<noteq> CHR ''/'')
         (rev (takeWhile (\<lambda>c. c \<noteq> CHR ''?'') (drop (length apple_prefix) u)))) = ''id'' @ n \<longrightarrow>
      getPackageOrItunesId u = Some n \<and> spec_itunes_id u = n)"
proof -
  have ex: "getPackageOrItunesId ''https://apps.apple.com/us/app/facebook/id284882215?uo=4''
     = Some ''284882215''"
    by (simp add: getPackageOrItunesId_def play_prefix_def apple_prefix_def)
  have lead: "getPackageOrItunesId u = Some n \<and> spec_itunes_id u = n"
    if "prefix apple_prefix u"
      and "rev (takeWhile (\<lambda>c. c \<noteq> CHR ''/'')
         (rev (takeWhile (\<lambda>c. c \<noteq> CHR ''?'') (drop (length apple_prefix) u)))) = ''id'' @ n"
    for u n
    using that getPackageOrItunesId_apple [OF that(1)]
    by (simp add: spec_itunes_id_def strip_leading_id_def hd_str_split last_str_split)
  show ?thesis using ex getPackageOrItunesId_apple lead by blast
qed

theorem getPackageOrItunesId_apple_url_witness:
  "prefix apple_prefix ''https://apps.apple.com/us/app/signal/id874139669'' \<and>
   getPackageOrItunesId ''https://apps.apple.com/us/app/signal/id874139669'' = Some ''874139669''"
proof -
  have p: "prefix apple_prefix ''https://apps.apple.com/us/app/signal/id874139669''"
    by (simp add: apple_prefix_def)
  have s: "rev (takeWhile (\<lambda>c. c \<noteq> CHR ''/'')
         (rev (takeWhile (\<lambda>c. c \<noteq> CHR ''?'')
            (drop (length apple_prefix) ''https://apps.apple.com/us/app/signal/id874139669''))))
         = ''id'' @ ''874139669''"
    by (simp add: apple_prefix_def)
  show ?thesis using getPackageOrItunesId_apple_url p s by blast
qed

section \<open>Properties of ingestion\<close>

subsection \<open>One record\<close>

lemma select_by_key_nonempty:
  "select_by_key k t \<noteq> [] \<longleftrightarrow> (\<exists>r \<in> set t. sql_eq (platformAppKey r) k)"
  by (auto simp: select_by_key_def filter_empty_conv)

lemma addAppsToDb_append:
  "addAppsToDb t (xs @ ys) = addAppsToDb (addAppsToDb t xs) ys"
  by (induction xs arbitrary: t) auto

lemma addApp_unsupported:
  assumes "odata_type a = Some ty" "\<not> str_includes ty ''android''" "\<not> str_includes ty ''ios''"
  shows "addApp t a = (Unsupported, t)"
  using assms by (simp add: addApp_def addApp_try_def detect_platform_def)


text \<open>
  One iteration either does not look at the table at all (unsupported platform,
  \<open>TypeError\<close>), or it has a key and a row to insert that do not depend on the
  table, and the table decides among skip, constraint error and insertion.
\<close>

lemma unique_violation_mono:
  "unique_violation new t \<Longrightarrow> set t \<subseteq> set D \<Longrightarrow> unique_violation new D"
  by (auto simp: unique_violation_def)

lemma unique_violation_key:
  "select_by_key (platformAppKey new) t \<noteq> [] \<Longrightarrow> unique_violation new t"
  by (auto simp: unique_violation_def select_by_key_nonempty)

lemma addApp_shape:
  "(\<exists>oc. oc \<noteq> Inserted \<and> oc \<noteq> AlreadyExists \<and> (\<forall>t. addApp t a = (oc, t))) \<or>
   (\<exists>new k. platformAppKey new = SText k \<and>
      (\<forall>t. addApp t a =
         (if select_by_key (SText k) t \<noteq> [] then (AlreadyExists, t)
          else if unique_violation new t then (Failed SqliteConstraint, t)
          else (Inserted, t @ [new\<lparr>rowid := next_rowid t\<rparr>]))))"
proof (cases "odata_type a")
  case None
  then have "\<forall>t. addApp t a = (Failed TypeError, t)"
    by (simp add: addApp_def addApp_try_def)
  then show ?thesis by blast
next
  case (Some ty)
  show ?thesis
  proof (cases "detect_platform ty")
    case None
    then have "\<forall>t. addApp t a = (Unsupported, t)"
      using Some by (simp add: addApp_def addApp_try_def)
    then show ?thesis by blast
  next
    case plat: (Some plat)
    show ?thesis
    proof (cases "plat = ''ios'' \<and> appStoreUrl a = None")
      case True
      then have "\<forall>t. addApp t a = (Failed TypeError, t)"
        using Some plat by (simp add: addApp_def addApp_try_def)
      then show ?thesis by blast
    next
      case False
      define itunes where
        "itunes = (if plat = ''ios''
                   then (case appStoreUrl a of None \<Rightarrow> None | Some u \<Rightarrow> getPackageOrItunesId u)
                   else None)"
      define k where "k = compose_key plat (app_packageId a) itunes"
      define new where
        "new = insert_values (bind_str (app_id a)) (SText k) (bind_str (app_packageId a))
                 (bind_str itunes) (bind_str (js_or (app_packageId a) itunes)) (SText plat)"
      have key: "platformAppKey new = SText k"
        by (simp add: new_def insert_values_def)
      have "addApp t a =
              (if select_by_key (SText k) t \<noteq> [] then (AlreadyExists, t)
               else if unique_violation new t then (Failed SqliteConstraint, t)
               else (Inserted, t @ [new\<lparr>rowid := next_rowid t\<rparr>]))" for t
        using Some plat False
        by (auto simp: addApp_def addApp_try_def sql_insert_def Let_def itunes_def k_def new_def
                 split: option.splits)
      then show ?thesis using key by blast
    qed
  qed
qed

text \<open>Rows are only ever appended.\<close>

lemma addApp_grows: "set t \<subseteq> set (snd (addApp t a))"
  using addApp_shape [of a] by auto

lemma addAppsToDb_grows: "set t \<subseteq> set (addAppsToDb t as)"
proof (induction as arbitrary: t)
  case Nil
  show ?case by simp
next
  case (Cons a as)
  have "set t \<subseteq> set (snd (addApp t a))" by (rule addApp_grows)
  also have "\<dots> \<subseteq> set (addAppsToDb (snd (addApp t a)) as)" by (rule Cons.IH)
  finally show ?case by simp
qed

text \<open>
  A record processed once is never inserted by a later table that holds whatever
  the first processing left.
\<close>

lemma addApp_again:
  assumes sub: "set (snd (addApp t a)) \<subseteq> set D"
  shows "snd (addApp D a) = D" and "fst (addApp D a) \<noteq> Inserted"
    and "fst (addApp t a) = Inserted \<or> fst (addApp t a) = AlreadyExists
           \<Longrightarrow> fst (addApp D a) = AlreadyExists"
proof -
  have tD: "set t \<subseteq> set D" using addApp_grows [of t a] sub by blast
  consider (static) oc where "oc \<noteq> Inserted" "oc \<noteq> AlreadyExists" "\<forall>t. addApp t a = (oc, t)"
    | (keyed) new k where "platformAppKey new = SText k"
        "\<forall>t. addApp t a =
           (if select_by_key (SText k) t \<noteq> [] then (AlreadyExists, t)
            else if unique_violation new t then (Failed SqliteConstraint, t)
            else (Inserted, t @ [new\<lparr>rowid := next_rowid t\<rparr>]))"
    using addApp_shape [of a] by blast
  then have "snd (addApp D a) = D \<and> fst (addApp D a) \<noteq> Inserted \<and>
             (fst (addApp t a) = Inserted \<or> fst (addApp t a) = AlreadyExists
                \<longrightarrow> fst (addApp D a) = AlreadyExists)"
  proof cases
    case static
    then show ?thesis by simp
  next
    case keyed
    note eq = keyed(2) [rule_format]
    show ?thesis
    proof (cases "select_by_key (SText k) D \<noteq> []")
      case True
      then show ?thesis by (simp add: eq)
    next
      case noD: False
      then have not: "select_by_key (SText k) t = []"
        using tD by (auto simp: select_by_key_def filter_empty_conv)
      have viol: "unique_violation new t"
      proof (rule ccontr)
        assume "\<not> unique_violation new t"
        then have "snd (addApp t a) = t @ [new\<lparr>rowid := next_rowid t\<rparr>]"
          using not by (simp add: eq)
        then have "new\<lparr>rowid := next_rowid t\<rparr> \<in> set D" using sub by auto
        moreover have "sql_eq (platformAppKey (new\<lparr>rowid := next_rowid t\<rparr>)) (SText k)"
          using keyed(1) by (simp add: sql_eq_def)
        ultimately show False using noD by (auto simp: select_by_key_def filter_empty_conv)
      qed
      then have "unique_violation new D" using tD by (rule unique_violation_mono)
      then show ?thesis using noD not viol by (simp add: eq)
    qed
  qed
  then show "snd (addApp D a) = D" and "fst (addApp D a) \<noteq> Inserted"
    and "fst (addApp t a) = Inserted \<or> fst (addApp t a) = AlreadyExists
           \<Longrightarrow> fst (addApp D a) = AlreadyExists"
    by blast+
qed

lemma addAppsToDb_fixpoint:
  "(\<And>a. a \<in> set as \<Longrightarrow> snd (addApp D a) = D) \<Longrightarrow> addAppsToDb D as = D"
  by (induction as) auto

lemma outcomes_fixpoint:
  "(\<And>a. a \<in> set as \<Longrightarrow> snd (addApp D a) = D) \<Longrightarrow> outcomes D as = map (\<lambda>a. fst (addApp D a)) as"
  by (induction as) auto

lemma outcomes_nth:
  "i < length as \<Longrightarrow> outcomes t as ! i = fst (addApp (addAppsToDb t (take i as)) (as ! i))"
proof (induction as arbitrary: t i)
  case Nil
  then show ?case by simp
next
  case (Cons a as)
  then show ?case by (cases i) auto
qed

lemma addAppsToDb_take_Suc:
  "i < length as \<Longrightarrow>
     addAppsToDb t (take (Suc i) as) = snd (addApp (addAppsToDb t (take i as)) (as ! i))"
  by (simp add: take_Suc_conv_app_nth addAppsToDb_append)

lemma addAppsToDb_step_in_result:
  assumes "i < length as"
  shows "set (snd (addApp (addAppsToDb t (take i as)) (as ! i))) \<subseteq> set (addAppsToDb t as)"
proof -
  have "addAppsToDb t as = addAppsToDb (addAppsToDb t (take (Suc i) as)) (drop (Suc i) as)"
    using addAppsToDb_append [of t "take (Suc i) as" "drop (Suc i) as"] by simp
  then show ?thesis
    using addAppsToDb_grows [of "addAppsToDb t (take (Suc i) as)" "drop (Suc i) as"]
      addAppsToDb_take_Suc [OF assms, of t] by simp
qed

subsection \<open>Running ingestion twice\<close>

text \<open>
  Claim C1. Ingestion is idempotent: running \<open>addAppsToDb\<close> a second time on the
  same inventory response leaves the table exactly as the first run left it. The
  second run inserts no row, and every record that the first run inserted or found
  already present is skipped by the second run because a row with its
  \<open>platformAppKey\<close> exists. This holds for every table the first run starts from and
  every response, records with an unsupported platform, a failing resolver or a
  clashing \<open>intuneAppId\<close> included.
\<close>

theorem addAppsToDb_idempotent:
  "addAppsToDb (addAppsToDb t as) as = addAppsToDb t as \<and>
   Inserted \<notin> set (outcomes (addAppsToDb t as) as) \<and>
   (\<forall>i < length as.
      outcomes t as ! i = Inserted \<or> outcomes t as ! i = AlreadyExists \<longrightarrow>
      outcomes (addAppsToDb t as) as ! i = AlreadyExists)"
proof -
  define D where "D = addAppsToDb t as"
  have step: "set (snd (addApp (addAppsToDb t (take i as)) (as ! i))) \<subseteq> set D"
    if "i < length as" for i
    using that by (simp add: D_def addAppsToDb_step_in_result)
  have stable: "snd (addApp D a) = D" and notins: "fst (addApp D a) \<noteq> Inserted"
    if mem: "a \<in> set as" for a
  proof -
    obtain i where i: "i < length as" "as ! i = a"
      using mem by (auto simp: in_set_conv_nth)
    show "snd (addApp D a) = D" using addApp_again(1) [OF step [OF i(1)]] i(2) by simp
    show "fst (addApp D a) \<noteq> Inserted" using addApp_again(2) [OF step [OF i(1)]] i(2) by simp
  qed
  have oc: "outcomes D as = map (\<lambda>a. fst (addApp D a)) as"
    using stable by (rule outcomes_fixpoint)
  have 1: "addAppsToDb D as = D" using stable by (rule addAppsToDb_fixpoint)
  have 2: "Inserted \<notin> set (outcomes D as)" using notins by (force simp: oc)
  have 3: "outcomes D as ! i = AlreadyExists"
    if "i < length as" "outcomes t as ! i = Inserted \<or> outcomes t as ! i = AlreadyExists" for i
  proof -
    have "fst (addApp D (as ! i)) = AlreadyExists"
      using addApp_again(3) [OF step [OF that(1)]] that(2) outcomes_nth [OF that(1), of t]
      by simp
    then show ?thesis using that(1) by (simp add: oc)
  qed
  show ?thesis using 1 2 3 unfolding D_def by blast
qed


theorem addAppsToDb_idempotent_witness:
  "addAppsToDb
     (addAppsToDb []
       [\<lparr>odata_type = Some ''#microsoft.graph.androidStoreApp'', app_id = Some ''1'',
         app_packageId = Some ''com.einnovation.temu'', appStoreUrl = None\<rparr>,
        \<lparr>odata_type = Some ''#microsoft.graph.webApp'', app_id = Some ''2'',
         app_packageId = None, appStoreUrl = None\<rparr>,
        \<lparr>odata_type = Some ''#microsoft.graph.iosStoreApp'', app_id = Some ''1'',
         app_packageId = None,
         appStoreUrl = Some ''https://apps.apple.com/us/app/facebook/id284882215?uo=4''\<rparr>])
     [\<lparr>odata_type = Some ''#microsoft.graph.androidStoreApp'', app_id = Some ''1'',
       app_packageId = Some ''com.einnovation.temu'', appStoreUrl = None\<rparr>,
      \<lparr>odata_type = Some ''#microsoft.graph.webApp'', app_id = Some ''2'',
       app_packageId = None, appStoreUrl = None\<rparr>,
      \<lparr>odata_type = Some ''#microsoft.graph.iosStoreApp'', app_id = Some ''1'',
       app_packageId = None,
       appStoreUrl = Some ''https://apps.apple.com/us/app/facebook/id284882215?uo=4''\<rparr>]
   = addAppsToDb []
       [\<lparr>odata_type = Some ''#microsoft.graph.androidStoreApp'', app_id = Some ''1'',
         app_packageId = Some ''com.einnovation.temu'', appStoreUrl = None\<rparr>,
        \<lparr>odata_type = Some ''#microsoft.graph.webApp'', app_id = Some ''2'',
         app_packageId = None, appStoreUrl = None\<rparr>,
        \<lparr>odata_type = Some ''#microsoft.graph.iosStoreApp'', app_id = Some ''1'',
         app_packageId = None,
         appStoreUrl = Some ''https://apps.apple.com/us/app/facebook/id284882215?uo=4''\<rparr>] \<and>
   outcomes
     (addAppsToDb []
       [\<lparr>odata_type = Some ''#microsoft.graph.androidStoreApp'', app_id = Some ''1'',
         app_packageId = Some ''com.einnovation.temu'', appStoreUrl = None\<rparr>,
        \<lparr>odata_type = Some ''#microsoft.graph.webApp'', app_id = Some ''2'',
         app_packageId = None, appStoreUrl = None\<rparr>,
        \<lparr>odata_type = Some ''#microsoft.graph.iosStoreApp'', app_id = Some ''1'',
         app_packageId = None,
         appStoreUrl = Some ''https://apps.apple.com/us/app/facebook/id284882215?uo=4''\<rparr>])
     [\<lparr>odata_type = Some ''#microsoft.graph.androidStoreApp'', app_id = Some ''1'',
       app_packageId = Some ''com.einnovation.temu'', appStoreUrl = None\<rparr>,
      \<lparr>odata_type = Some ''#microsoft.graph.webApp'', app_id = Some ''2'',
       app_packageId = None, appStoreUrl = None\<rparr>,
      \<lparr>odata_type = Some ''#microsoft.graph.iosStoreApp'', app_id = Some ''1'',
       app_packageId = None,
       appStoreUrl = Some ''https://apps.apple.com/us/app/facebook/id284882215?uo=4''\<rparr>] ! 0
   = AlreadyExists"
proof -
  define L where "L =
       [\<lparr>odata_type = Some ''#microsoft.graph.androidStoreApp'', app_id = Some ''1'',
         app_packageId = Some ''com.einnovation.temu'', appStoreUrl = None\<rparr>,
        \<lparr>odata_type = Some ''#microsoft.graph.webApp'', app_id = Some ''2'',
         app_packageId = None, appStoreUrl = None\<rparr>,
        \<lparr>odata_type = Some ''#microsoft.graph.iosStoreApp'', app_id = Some ''1'',
         app_packageId = None,
         appStoreUrl = Some ''https://apps.apple.com/us/app/facebook/id284882215?uo=4''\<rparr>]"
  have len: "0 < length L" by (simp add: L_def)
  have first: "outcomes [] L ! 0 = Inserted"
    unfolding L_def by code_simp
  note idem = addAppsToDb_idempotent [of "[]" L]
  have "addAppsToDb (addAppsToDb [] L) L = addAppsToDb [] L"
    using idem by blast
  moreover have "outcomes (addAppsToDb [] L) L ! 0 = AlreadyExists"
    using idem len first by blast
  ultimately show ?thesis unfolding L_def by blast
qed

subsection \<open>Unsupported platforms\<close>

lemma outcomes_append:
  "outcomes t (xs @ ys) = outcomes t xs @ outcomes (addAppsToDb t xs) ys"
  by (induction xs arbitrary: t) auto

text \<open>
  Claim C3. A record whose type discriminator contains neither \<open>android\<close> nor
  \<open>ios\<close> writes no row: its iteration leaves the table as it was, with the outcome
  \<open>Unsupported\<close>, and the run is the run of the other records, those after it
  included.
\<close>

theorem unsupported_platform_skipped:
  assumes "odata_type a = Some ty"
    and "\<not> str_includes ty ''android''" and "\<not> str_includes ty ''ios''"
  shows "addApp t a = (Unsupported, t) \<and>
         addAppsToDb t (pre @ a # post) = addAppsToDb t (pre @ post) \<and>
         outcomes t (pre @ a # post) =
           outcomes t pre @ Unsupported # outcomes (addAppsToDb t pre) post"
proof -
  have "addApp t' a = (Unsupported, t')" for t'
    using assms by (rule addApp_unsupported)
  then show ?thesis by (simp add: addAppsToDb_append outcomes_append)
qed

theorem unsupported_platform_skipped_witness:
  "\<not> str_includes ''#microsoft.graph.webApp'' ''android'' \<and>
   \<not> str_includes ''#microsoft.graph.webApp'' ''ios'' \<and>
   addApp []
     \<lparr>odata_type = Some ''#microsoft.graph.webApp'', app_id = Some ''3'',
      app_packageId = None, appStoreUrl = Some ''https://example.com''\<rparr>
     = (Unsupported, []) \<and>
   addAppsToDb []
     ([\<lparr>odata_type = Some ''#microsoft.graph.androidStoreApp'', app_id = Some ''1'',
        app_packageId = Some ''com.einnovation.temu'', appStoreUrl = None\<rparr>] @
      \<lparr>odata_type = Some ''#microsoft.graph.webApp'', app_id = Some ''3'',
       app_packageId = None, appStoreUrl = Some ''https://example.com''\<rparr> #
      [\<lparr>odata_type = Some ''#microsoft.graph.iosStoreApp'', app_id = Some ''2'',
        app_packageId = None,
        appStoreUrl = Some ''https://apps.apple.com/us/app/facebook/id284882215?uo=4''\<rparr>])
   = addAppsToDb []
     ([\<lparr>odata_type = Some ''#microsoft.graph.androidStoreApp'', app_id = Some ''1'',
        app_packageId = Some ''com.einnovation.temu'', appStoreUrl = None\<rparr>] @
      [\<lparr>odata_type = Some ''#microsoft.graph.iosStoreApp'', app_id = Some ''2'',
        app_packageId = None,
        appStoreUrl = Some ''https://apps.apple.com/us/app/facebook/id284882215?uo=4''\<rparr>])"
proof -
  have h1: "\<not> str_includes ''#microsoft.graph.webApp'' ''android''" by simp
  have h2: "\<not> str_includes ''#microsoft.graph.webApp'' ''ios''" by simp
  have h0: "odata_type \<lparr>odata_type = Some ''#microsoft.graph.webApp'', app_id = Some ''3'',
      app_packageId = None, appStoreUrl = Some ''https://example.com''\<rparr>
      = Some ''#microsoft.graph.webApp''" by simp
  show ?thesis
    using unsupported_platform_skipped [OF h0 h1 h2] h1 h2 by blast
qed

subsection \<open>Records without an identifier\<close>

lemma addApp_android_ignores_url:
  assumes "odata_type b = Some ty" and "str_includes ty ''android''"
  shows "addApp t (b\<lparr>appStoreUrl := v\<rparr>) = addApp t b"
  using assms by (simp add: addApp_def addApp_try_def detect_platform_def Let_def)

lemma addApp_android_null:
  assumes "odata_type a = Some ty" and "str_includes ty ''android''"
    and "app_packageId a = None"
  shows "addApp t a =
     (if select_by_key (SText ''android-null'') t \<noteq> [] then (AlreadyExists, t)
      else if unique_violation
                (insert_values (bind_str (app_id a)) (SText ''android-null'') SNull SNull SNull
                   (SText ''android'')) t
      then (Failed SqliteConstraint, t)
      else (Inserted,
            t @ [(insert_values (bind_str (app_id a)) (SText ''android-null'') SNull SNull SNull
                    (SText ''android''))\<lparr>rowid := next_rowid t\<rparr>]))"
  using assms
  by (simp add: addApp_def addApp_try_def detect_platform_def compose_key_def js_or_def
        truthy_def template_str_def bind_str_def sql_insert_def)

text \<open>
  Claim C10. The resolver runs for iOS records only: an Android record is
  processed the same whatever its \<open>appStoreUrl\<close> is, a missing one included. An
  Android record whose \<open>packageId\<close> is null is inserted with \<open>appIdentifier\<close> \<open>NULL\<close>
  and the key \<open>android-null\<close>. Of several such records only the first is stored: on
  a table without that key, and with the first record's \<open>intuneAppId\<close> not yet in
  the table, the run appends exactly one row and every later record is skipped as
  already existing.
\<close>

theorem android_null_package_collide:
  assumes android: "\<forall>a \<in> set (a0 # as). \<exists>ty. odata_type a = Some ty \<and>
                       str_includes ty ''android'' \<and> app_packageId a = None"
    and fresh: "select_by_key (SText ''android-null'') t = []"
    and idfree: "\<not> (\<exists>r \<in> set t. sql_eq (intuneAppId r) (bind_str (app_id a0)))"
  shows "(\<forall>b ty v. odata_type b = Some ty \<and> str_includes ty ''android'' \<longrightarrow>
            addApp t (b\<lparr>appStoreUrl := v\<rparr>) = addApp t b) \<and>
         addAppsToDb t (a0 # as) =
           t @ [(insert_values (bind_str (app_id a0)) (SText ''android-null'') SNull SNull SNull
                   (SText ''android''))\<lparr>rowid := next_rowid t\<rparr>] \<and>
         outcomes t (a0 # as) = Inserted # replicate (length as) AlreadyExists"
proof -
  define new where
    "new = insert_values (bind_str (app_id a0)) (SText ''android-null'') SNull SNull SNull
             (SText ''android'')"
  define t1 where "t1 = t @ [new\<lparr>rowid := next_rowid t\<rparr>]"
  obtain ty0 where a0: "odata_type a0 = Some ty0" "str_includes ty0 ''android''"
      "app_packageId a0 = None"
    using android by auto
  have noviol: "\<not> unique_violation new t"
    using fresh idfree
    by (auto simp: unique_violation_def new_def insert_values_def select_by_key_def
             filter_empty_conv)
  have first: "addApp t a0 = (Inserted, t1)"
    using addApp_android_null [OF a0, of t] fresh noviol by (simp add: new_def t1_def)
  have url: "addApp t (b\<lparr>appStoreUrl := v\<rparr>) = addApp t b"
    if "odata_type b = Some ty \<and> str_includes ty ''android''" for b ty v
    using that addApp_android_ignores_url [of b ty] by blast
  have present: "select_by_key (SText ''android-null'') t1 \<noteq> []"
    by (simp add: t1_def select_by_key_def new_def insert_values_def sql_eq_def)
  have rest: "addApp t1 a = (AlreadyExists, t1)" if mem: "a \<in> set as" for a
  proof -
    obtain ty where "odata_type a = Some ty" "str_includes ty ''android''"
        "app_packageId a = None"
      using android mem by auto
    then show ?thesis using addApp_android_null [of a ty t1] present by simp
  qed
  have "addAppsToDb t1 as = t1"
    by (rule addAppsToDb_fixpoint) (simp add: rest)
  then have run: "addAppsToDb t (a0 # as) = t1"
    using first by simp
  have "outcomes t1 as = map (\<lambda>a. fst (addApp t1 a)) as"
    by (rule outcomes_fixpoint) (simp add: rest)
  then have "outcomes t1 as = replicate (length as) AlreadyExists"
    by (simp add: rest map_replicate_const cong: map_cong)
  then have log: "outcomes t (a0 # as) = Inserted # replicate (length as) AlreadyExists"
    using first by simp
  show ?thesis
    using url run log unfolding t1_def new_def by blast
qed

theorem android_null_package_collide_witness:
  "addAppsToDb []
     [\<lparr>odata_type = Some ''#microsoft.graph.androidStoreApp'', app_id = Some ''a'',
       app_packageId = None,
       appStoreUrl = Some ''https://play.google.com/store/apps/details?id=com.one''\<rparr>,
      \<lparr>odata_type = Some ''#microsoft.graph.androidLobApp'', app_id = Some ''b'',
       app_packageId = None, appStoreUrl = None\<rparr>]
   = [(insert_values (SText ''a'') (SText ''android-null'') SNull SNull SNull
         (SText ''android''))\<lparr>rowid := 1\<rparr>] \<and>
   outcomes []
     [\<lparr>odata_type = Some ''#microsoft.graph.androidStoreApp'', app_id = Some ''a'',
       app_packageId = None,
       appStoreUrl = Some ''https://play.google.com/store/apps/details?id=com.one''\<rparr>,
      \<lparr>odata_type = Some ''#microsoft.graph.androidLobApp'', app_id = Some ''b'',
       app_packageId = None, appStoreUrl = None\<rparr>]
   = [Inserted, AlreadyExists]"
  using android_null_package_collide [of
      "\<lparr>odata_type = Some ''#microsoft.graph.androidStoreApp'', app_id = Some ''a'',
        app_packageId = None,
        appStoreUrl = Some ''https://play.google.com/store/apps/details?id=com.one''\<rparr>"
      "[\<lparr>odata_type = Some ''#microsoft.graph.androidLobApp'', app_id = Some ''b'',
         app_packageId = None, appStoreUrl = None\<rparr>]"
      "[]"]
  by (simp add: select_by_key_def bind_str_def next_rowid_def)





section \<open>Properties of enrichment\<close>

subsection \<open>Timestamps\<close>

lemma to_seconds_to_millis:
  "Date_parse e s = Some ms \<Longrightarrow>
     to_seconds (to_millis e (JString s)) = JNumber (ms div 1000) \<and>
     to_seconds (to_millis e (JNumber ms)) = JNumber (ms div 1000)"
  by (simp add: to_seconds_def to_millis_def date_getTime_def)

lemma normalize_dates_fields:
  "md_released (normalize_dates e m) = to_seconds (to_millis e (md_released m))"
  "md_updated (normalize_dates e m) = to_seconds (to_millis e (md_updated m))"
  by (simp_all add: normalize_dates_def Let_def)








text \<open>The stored columns hold the same seconds: an integer passes the affinity unchanged.\<close>

lemma timestamp_columns_stored:
  assumes "Date_parse e s1 = Some ms1" and "Date_parse e s2 = Some ms2"
  shows "releasedAt (metadata_affinity e (set_metadata r
            (normalize_dates e (m\<lparr>md_released := JString s1, md_updated := JString s2\<rparr>)) g x))
           = SInt (ms1 div 1000) \<and>
         updatedAt (metadata_affinity e (set_metadata r
            (normalize_dates e (m\<lparr>md_released := JString s1, md_updated := JString s2\<rparr>)) g x))
           = SInt (ms2 div 1000)"
  using assms
  by (simp add: metadata_affinity_def numeric_affinity_def set_metadata_def bind_param_def
        normalize_dates_fields to_seconds_to_millis)

subsection \<open>Column types\<close>

text \<open>
  A number bound to a \<open>TEXT\<close> column is stored as its decimal text, as the numeric
  \<open>developerId\<close> of the App Store is.
\<close>

lemma dec_int_examples:
  "dec_int 284882218 = ''284882218''" "dec_int (- 3) = ''-3''" "dec_int 0 = ''0''"
  by (simp_all add: dec_int_def dec_nat.simps digit_char_def)

lemma text_column_stores_number:
  "developerId (metadata_affinity e (set_metadata r (m\<lparr>md_developerId := JNumber 284882218\<rparr>) g x))
     = SText ''284882218''"
  by (simp add: metadata_affinity_def set_metadata_def bind_param_def text_affinity_def
        dec_int_examples)

subsection \<open>Provider errors\<close>

text \<open>
  An \<open>UPDATE\<close> of the program never writes the key column, and it changes only the
  rows whose key it names.
\<close>

lemma set_metadata_key [simp]:
  "platformAppKey (set_metadata a m g r) = platformAppKey r"
  by (simp add: set_metadata_def)

lemma metadata_affinity_key [simp]:
  "platformAppKey (metadata_affinity e r) = platformAppKey r"
  by (simp add: metadata_affinity_def)

lemma sql_update_other:
  assumes "\<And>r. platformAppKey (f r) = platformAppKey r"
    and "k \<noteq> k'"
  shows "filter (\<lambda>x. platformAppKey x = k') (sql_update k f t)
           = filter (\<lambda>x. platformAppKey x = k') t"
  using assms by (induction t) (auto simp: sql_update_def sql_eq_def)

lemma sql_update_same:
  assumes "\<And>r. platformAppKey (f r) = platformAppKey r"
    and "k \<noteq> SNull"
  shows "filter (\<lambda>x. platformAppKey x = k) (sql_update k f t)
           = map f (filter (\<lambda>x. platformAppKey x = k) t)"
  using assms by (induction t) (auto simp: sql_update_def sql_eq_def)

lemma enrichAppMetadata_other:
  assumes "platformAppKey a \<noteq> k"
  shows "filter (\<lambda>x. platformAppKey x = k) (enrichAppMetadata e a t)
           = filter (\<lambda>x. platformAppKey x = k) t"
  using assms
  by (auto simp: enrichAppMetadata_def Let_def sql_update_other
           split: option.splits provider_result.splits)

lemma enrich_loop_other:
  assumes "\<forall>a \<in> set as. platformAppKey a \<noteq> k"
  shows "filter (\<lambda>x. platformAppKey x = k) (enrich_loop e as t)
           = filter (\<lambda>x. platformAppKey x = k) t"
  using assms by (induction as arbitrary: t) (auto simp: enrichAppMetadata_other)

lemma enrich_loop_append:
  "enrich_loop e (xs @ ys) t = enrich_loop e ys (enrich_loop e xs t)"
  by (induction xs arbitrary: t) auto

text \<open>In a table with unique keys a non-null key names one row.\<close>

lemma unique_keys_same_key:
  assumes "unique_keys t" and "r \<in> set t" and "x \<in> set t"
    and "platformAppKey r \<noteq> SNull" and "platformAppKey x = platformAppKey r"
  shows "x = r"
proof -
  have "inj_on platformAppKey (set (filter (\<lambda>r. platformAppKey r \<noteq> SNull) t))"
    using assms(1) unfolding unique_keys_def by (simp add: distinct_map)
  then show ?thesis using assms(2-5) by (auto dest: inj_onD)
qed

lemma filter_eq_distinct:
  "distinct xs \<Longrightarrow> r \<in> set xs \<Longrightarrow> filter (\<lambda>x. x = r) xs = [r]"
  by (induction xs) (auto simp: filter_empty_conv)

lemma unique_keys_filter:
  assumes "unique_keys t" and "r \<in> set t" and "platformAppKey r \<noteq> SNull"
  shows "filter (\<lambda>x. platformAppKey x = platformAppKey r) t = [r]"
proof -
  have d: "distinct (filter (\<lambda>r. platformAppKey r \<noteq> SNull) t)"
    using assms(1) unfolding unique_keys_def by (simp add: distinct_map)
  have eq: "filter (\<lambda>x. platformAppKey x = platformAppKey r) t
          = filter (\<lambda>x. x = r) (filter (\<lambda>r. platformAppKey r \<noteq> SNull) t)"
    using unique_keys_same_key [OF assms(1,2) _ assms(3)] assms(3)
    by (auto intro!: filter_cong)
  have "r \<in> set (filter (\<lambda>r. platformAppKey r \<noteq> SNull) t)" using assms(2,3) by simp
  then show ?thesis unfolding eq using d by (rule filter_eq_distinct [rotated])
qed


lemma filter_commute: "filter P (filter Q xs) = filter Q (filter P xs)"
  by (induction xs) auto

lemma enrichAppMetadata_throws:
  "fetch_metadata e r = Some (Throws msg) \<Longrightarrow>
     enrichAppMetadata e r t
       = sql_update (platformAppKey r) (\<lambda>x. x\<lparr>title := text_affinity (bind_param msg)\<rparr>) t"
  by (simp add: enrichAppMetadata_def)

text \<open>
  What a provider error does. Let the table have unique keys, as the \<open>UNIQUE\<close>
  constraint makes it, and let \<open>r\<close> be a row of it with a key and a \<open>NULL\<close> title
  whose provider call throws an error object with \<open>error.message = msg\<close>. Then
  \<open>enrichAppMetadata\<close> sets the title of \<open>r\<close> to the bound message and changes
  nothing else, in \<open>r\<close> or in any other row; the function returns and the loop goes
  on with the remaining records; after the whole pass the row with the key of \<open>r\<close>
  is still \<open>r\<close> with the bound message as its title. When the bound message is not
  \<open>NULL\<close>, the \<open>SELECT\<close> of a later pass, which takes the rows with a \<open>NULL\<close> title
  only, does not return the record; when it is \<open>NULL\<close> (an error without a message),
  the record is selected again.
\<close>

lemma enrichment_error_recorded:
  assumes uk: "unique_keys t" and mem: "r \<in> set t" and sel: "title r = SNull"
    and key: "platformAppKey r \<noteq> SNull"
    and thr: "fetch_metadata e r = Some (Throws msg)"
  shows "enrichAppMetadata e r t
           = map (\<lambda>x. if x = r then r\<lparr>title := text_affinity (bind_param msg)\<rparr> else x) t \<and>
         enrich_loop e (r # rest) t
           = enrich_loop e rest (map (\<lambda>x. if x = r then r\<lparr>title := text_affinity (bind_param msg)\<rparr> else x) t) \<and>
         filter (\<lambda>x. platformAppKey x = platformAppKey r) (enrich_pass e t)
           = [r\<lparr>title := text_affinity (bind_param msg)\<rparr>] \<and>
         (text_affinity (bind_param msg) \<noteq> SNull \<longrightarrow>
            (\<forall>x \<in> set (select_title_null (enrich_pass e t)).
               platformAppKey x \<noteq> platformAppKey r)) \<and>
         (text_affinity (bind_param msg) = SNull \<longrightarrow>
            r \<in> set (select_title_null (enrich_pass e t)))"
proof -
  let ?k = "platformAppKey r"
  let ?f = "\<lambda>x. x\<lparr>title := text_affinity (bind_param msg)\<rparr>"
  let ?F = "filter (\<lambda>x. platformAppKey x = ?k)"
  have a: "enrichAppMetadata e r t = map (\<lambda>x. if x = r then ?f r else x) t"
  proof -
    have "sql_eq (platformAppKey x) ?k \<longleftrightarrow> x = r" if "x \<in> set t" for x
      using unique_keys_same_key [OF uk mem that key] key by (auto simp: sql_eq_def)
    then have "sql_update ?k ?f t = map (\<lambda>x. if x = r then ?f r else x) t"
      unfolding sql_update_def by (auto intro!: map_cong)
    then show ?thesis using enrichAppMetadata_throws [OF thr] by simp
  qed
  have b: "enrich_loop e (r # rest) t
           = enrich_loop e rest (map (\<lambda>x. if x = r then ?f r else x) t)"
    using a by simp
  have Ft: "?F t = [r]" using uk mem key by (rule unique_keys_filter)
  have "r \<in> set (select_title_null t)" using mem sel by (simp add: select_title_null_def)
  then obtain pre post where split: "select_title_null t = pre @ r # post"
    by (auto dest: split_list)
  have "?F (select_title_null t) = filter (\<lambda>x. title x = SNull) (?F t)"
    unfolding select_title_null_def by (rule filter_commute)
  then have "?F (select_title_null t) = [r]"
    using Ft sel by simp
  then have "?F pre @ r # ?F post = [r]" unfolding split by simp
  then have "?F pre = []" and "?F post = []"
    by (simp_all add: append_eq_Cons_conv)
  then have pre: "\<forall>a \<in> set pre. platformAppKey a \<noteq> ?k"
    and post: "\<forall>a \<in> set post. platformAppKey a \<noteq> ?k"
    by (auto simp: filter_empty_conv)
  have pass: "enrich_pass e t = enrich_loop e post (enrichAppMetadata e r (enrich_loop e pre t))"
    by (simp add: enrich_pass_def split enrich_loop_append)
  have "?F (enrich_loop e pre t) = [r]"
    using enrich_loop_other [OF pre] Ft by simp
  then have "?F (enrichAppMetadata e r (enrich_loop e pre t)) = [?f r]"
    using enrichAppMetadata_throws [OF thr] sql_update_same [of ?f ?k] key by simp
  then have c: "?F (enrich_pass e t) = [?f r]"
    using enrich_loop_other [OF post] pass by simp
  have d: "platformAppKey x \<noteq> ?k"
    if nn: "text_affinity (bind_param msg) \<noteq> SNull" and x: "x \<in> set (select_title_null (enrich_pass e t))" for x
  proof
    assume "platformAppKey x = ?k"
    then have "x \<in> set (?F (enrich_pass e t))" using x by (simp add: select_title_null_def)
    then have "x = ?f r" unfolding c by simp
    then have "title x \<noteq> SNull" using nn by simp
    then show False using x by (simp add: select_title_null_def)
  qed
  have again: "r \<in> set (select_title_null (enrich_pass e t))"
    if nul: "text_affinity (bind_param msg) = SNull"
  proof -
    have "?f r = r" using nul sel by simp
    then have "r \<in> set (?F (enrich_pass e t))" unfolding c by simp
    then show ?thesis using sel by (simp add: select_title_null_def)
  qed
  show ?thesis using a b c d again by blast
qed


text \<open>
  An example: the provider reports \<open>App not found (404)\<close> for the first of two rows.
\<close>

lemma enrichment_error_recorded_example:
  "unique_keys
     [(insert_values (SText ''1'') (SText ''android-com.gone'') (SText ''com.gone'') SNull
        (SText ''com.gone'') (SText ''android''))\<lparr>rowid := 1\<rparr>,
      (insert_values (SText ''2'') (SText ''android-com.ok'') (SText ''com.ok'') SNull
        (SText ''com.ok'') (SText ''android''))\<lparr>rowid := 2\<rparr>] \<and>
   fetch_metadata
      \<lparr>gplay_app = \<lambda>i. if i = SText ''com.gone'' then Throws (JString ''App not found (404)'')
                        else Returns None,
       store_app = \<lambda>i. Returns None, Date_parse = \<lambda>s. None,
       numeric_text = SText\<rparr>
      ((insert_values (SText ''1'') (SText ''android-com.gone'') (SText ''com.gone'') SNull
        (SText ''com.gone'') (SText ''android''))\<lparr>rowid := 1\<rparr>)
     = Some (Throws (JString ''App not found (404)'')) \<and>
   filter (\<lambda>x. platformAppKey x = SText ''android-com.gone'')
     (enrich_pass
        \<lparr>gplay_app = \<lambda>i. if i = SText ''com.gone'' then Throws (JString ''App not found (404)'')
                        else Returns None,
       store_app = \<lambda>i. Returns None, Date_parse = \<lambda>s. None,
       numeric_text = SText\<rparr>
        [(insert_values (SText ''1'') (SText ''android-com.gone'') (SText ''com.gone'') SNull
        (SText ''com.gone'') (SText ''android''))\<lparr>rowid := 1\<rparr>,
         (insert_values (SText ''2'') (SText ''android-com.ok'') (SText ''com.ok'') SNull
        (SText ''com.ok'') (SText ''android''))\<lparr>rowid := 2\<rparr>])
     = [(insert_values (SText ''1'') (SText ''android-com.gone'') (SText ''com.gone'') SNull
          (SText ''com.gone'') (SText ''android''))
        \<lparr>rowid := 1, title := SText ''App not found (404)''\<rparr>] \<and>
   select_title_null
     (enrich_pass
        \<lparr>gplay_app = \<lambda>i. if i = SText ''com.gone'' then Throws (JString ''App not found (404)'')
                        else Returns None,
       store_app = \<lambda>i. Returns None, Date_parse = \<lambda>s. None,
       numeric_text = SText\<rparr>
        [(insert_values (SText ''1'') (SText ''android-com.gone'') (SText ''com.gone'') SNull
        (SText ''com.gone'') (SText ''android''))\<lparr>rowid := 1\<rparr>,
         (insert_values (SText ''2'') (SText ''android-com.ok'') (SText ''com.ok'') SNull
        (SText ''com.ok'') (SText ''android''))\<lparr>rowid := 2\<rparr>])
     = [(insert_values (SText ''2'') (SText ''android-com.ok'') (SText ''com.ok'') SNull
        (SText ''com.ok'') (SText ''android''))\<lparr>rowid := 2\<rparr>]"
proof -
  define R where "R = (insert_values (SText ''1'') (SText ''android-com.gone'') (SText ''com.gone'') SNull
        (SText ''com.gone'') (SText ''android''))\<lparr>rowid := 1\<rparr>"
  define R2 where "R2 = (insert_values (SText ''2'') (SText ''android-com.ok'') (SText ''com.ok'') SNull
        (SText ''com.ok'') (SText ''android''))\<lparr>rowid := 2\<rparr>"
  define E where "E = \<lparr>gplay_app = \<lambda>i. if i = SText ''com.gone'' then Throws (JString ''App not found (404)'')
                        else Returns None,
       store_app = \<lambda>i. Returns None, Date_parse = \<lambda>s. None,
       numeric_text = SText\<rparr>"
  have uk: "unique_keys [R, R2]"
    by (simp add: unique_keys_def R_def R2_def insert_values_def)
  have mem: "R \<in> set [R, R2]" by simp
  have sel: "title R = SNull" by (simp add: R_def insert_values_def)
  have key: "platformAppKey R \<noteq> SNull" by (simp add: R_def insert_values_def)
  have k: "platformAppKey R = SText ''android-com.gone''" by (simp add: R_def insert_values_def)
  have thr: "fetch_metadata E R = Some (Throws (JString ''App not found (404)''))"
    by (simp add: fetch_metadata_def E_def R_def insert_values_def)
  note rec = enrichment_error_recorded [OF uk mem sel key thr, of "[]"]
  have one: "enrichAppMetadata E R [R, R2]
               = map (\<lambda>x. if x = R
                           then R\<lparr>title := text_affinity (bind_param (JString ''App not found (404)''))\<rparr>
                           else x) [R, R2]"
    using rec by blast
  have row: "filter (\<lambda>x. platformAppKey x = SText ''android-com.gone'') (enrich_pass E [R, R2])
               = [R\<lparr>title := SText ''App not found (404)''\<rparr>]"
    using rec by (simp add: k bind_param_def text_affinity_def)
  have "fetch_metadata E R2 = Some (Returns None)"
    by (simp add: fetch_metadata_def E_def R2_def insert_values_def)
  then have two: "enrichAppMetadata E R2 t = t" for t
    by (simp add: enrichAppMetadata_def)
  have "R \<noteq> R2" by (simp add: R_def R2_def insert_values_def)
  moreover have "title R2 = SNull" by (simp add: R2_def insert_values_def)
  ultimately have "select_title_null (enrich_pass E [R, R2]) = [R2]"
    using sel one two
    by (simp add: enrich_pass_def select_title_null_def bind_param_def text_affinity_def)
  then show ?thesis
    using uk thr row unfolding R_def R2_def E_def by simp
qed

text \<open>
  Claim C2 says that a record whose provider call throws is not queried again by a
  later pass, and the comment in the \<open>catch\<close> clause says the same: the title is
  updated with the error "so we don't keep rechecking it". The code does that only
  for an error that carries a message. For an error object without a message the
  \<open>UPDATE\<close> binds \<open>undefined\<close>, the title stays \<open>NULL\<close>, the table is left as it was,
  and the next pass selects the record again: here an iOS row whose provider call
  is rejected with such an object.
\<close>

theorem enrichment_error_without_message:
  "fetch_metadata
      \<lparr>gplay_app = \<lambda>i. Returns None, store_app = \<lambda>i. Throws JUndefined,
       Date_parse = \<lambda>s. None, numeric_text = SText\<rparr>
      ((insert_values (SText ''9'') (SText ''ios-284882215'') SNull (SText ''284882215'')
          (SText ''284882215'') (SText ''ios''))\<lparr>rowid := 1\<rparr>)
     = Some (Throws JUndefined) \<and>
   enrich_pass
      \<lparr>gplay_app = \<lambda>i. Returns None, store_app = \<lambda>i. Throws JUndefined,
       Date_parse = \<lambda>s. None, numeric_text = SText\<rparr>
      [(insert_values (SText ''9'') (SText ''ios-284882215'') SNull (SText ''284882215'')
          (SText ''284882215'') (SText ''ios''))\<lparr>rowid := 1\<rparr>]
     = [(insert_values (SText ''9'') (SText ''ios-284882215'') SNull (SText ''284882215'')
          (SText ''284882215'') (SText ''ios''))\<lparr>rowid := 1\<rparr>] \<and>
   select_title_null
     (enrich_pass
        \<lparr>gplay_app = \<lambda>i. Returns None, store_app = \<lambda>i. Throws JUndefined,
         Date_parse = \<lambda>s. None, numeric_text = SText\<rparr>
        [(insert_values (SText ''9'') (SText ''ios-284882215'') SNull (SText ''284882215'')
            (SText ''284882215'') (SText ''ios''))\<lparr>rowid := 1\<rparr>])
     = [(insert_values (SText ''9'') (SText ''ios-284882215'') SNull (SText ''284882215'')
          (SText ''284882215'') (SText ''ios''))\<lparr>rowid := 1\<rparr>]"
  by (simp add: fetch_metadata_def enrich_pass_def select_title_null_def enrichAppMetadata_def
        sql_update_def sql_eq_def bind_param_def text_affinity_def insert_values_def)

theorem enrichment_error_without_message_witness:
  "(insert_values (SText ''9'') (SText ''ios-284882215'') SNull (SText ''284882215'')
      (SText ''284882215'') (SText ''ios''))\<lparr>rowid := 1\<rparr>
   \<in> set (select_title_null
     (enrich_pass
        \<lparr>gplay_app = \<lambda>i. Returns None, store_app = \<lambda>i. Throws JUndefined,
         Date_parse = \<lambda>s. None, numeric_text = SText\<rparr>
        [(insert_values (SText ''9'') (SText ''ios-284882215'') SNull (SText ''284882215'')
            (SText ''284882215'') (SText ''ios''))\<lparr>rowid := 1\<rparr>]))"
proof -
  note again = enrichment_error_without_message [THEN conjunct2, THEN conjunct2]
  show ?thesis unfolding again by simp
qed

subsection \<open>The tables the program builds\<close>

text \<open>
  The hypotheses of the lemma on provider errors are invariants of the program: ingestion
  keeps the keys unique and gives every row it writes a key, and enrichment never
  changes a key.
\<close>

lemma unique_keys_Nil: "unique_keys []"
  by (simp add: unique_keys_def)

lemma addApp_result:
  "snd (addApp t a) = t \<or>
   (\<exists>new k. platformAppKey new = SText k \<and> select_by_key (SText k) t = [] \<and>
      snd (addApp t a) = t @ [new\<lparr>rowid := next_rowid t\<rparr>])"
proof -
  consider (static) oc where "\<forall>t. addApp t a = (oc, t)"
    | (keyed) new k where "platformAppKey new = SText k"
        "\<forall>t. addApp t a =
           (if select_by_key (SText k) t \<noteq> [] then (AlreadyExists, t)
            else if unique_violation new t then (Failed SqliteConstraint, t)
            else (Inserted, t @ [new\<lparr>rowid := next_rowid t\<rparr>]))"
    using addApp_shape [of a] by blast
  then show ?thesis
  proof cases
    case static
    then show ?thesis by simp
  next
    case keyed
    show ?thesis
    proof (cases "select_by_key (SText k) t = [] \<and> \<not> unique_violation new t")
      case True
      then have "snd (addApp t a) = t @ [new\<lparr>rowid := next_rowid t\<rparr>]"
        by (simp add: keyed(2))
      then show ?thesis using keyed(1) True by blast
    next
      case False
      then have "snd (addApp t a) = t" by (auto simp: keyed(2))
      then show ?thesis by simp
    qed
  qed
qed

lemma unique_keys_snoc:
  assumes "unique_keys t" and "platformAppKey new = SText k"
    and "select_by_key (SText k) t = []"
  shows "unique_keys (t @ [new])"
proof -
  have "platformAppKey x \<noteq> SText k" if "x \<in> set t" for x
    using assms(3) that by (auto simp: select_by_key_def filter_empty_conv sql_eq_def)
  then have "SText k \<notin> platformAppKey ` set t" by force
  then show ?thesis using assms(1,2) by (auto simp: unique_keys_def)
qed

lemma unique_keys_addApp: "unique_keys t \<Longrightarrow> unique_keys (snd (addApp t a))"
  using addApp_result [of t a] by (auto simp: unique_keys_snoc)

lemma unique_keys_addAppsToDb: "unique_keys t \<Longrightarrow> unique_keys (addAppsToDb t as)"
  by (induction as arbitrary: t) (auto simp: unique_keys_addApp)

lemma has_key_addApp:
  "\<forall>r \<in> set t. platformAppKey r \<noteq> SNull \<Longrightarrow>
   \<forall>r \<in> set (snd (addApp t a)). platformAppKey r \<noteq> SNull"
  using addApp_result [of t a] by auto

lemma has_key_addAppsToDb:
  "\<forall>r \<in> set t. platformAppKey r \<noteq> SNull \<Longrightarrow>
   \<forall>r \<in> set (addAppsToDb t as). platformAppKey r \<noteq> SNull"
proof (induction as arbitrary: t)
  case Nil
  then show ?case by simp
next
  case (Cons a as)
  show ?case using Cons.IH [OF has_key_addApp [OF Cons.prems]] by simp
qed

lemma sql_update_keys:
  "(\<And>r. platformAppKey (f r) = platformAppKey r) \<Longrightarrow>
     map platformAppKey (sql_update k f t) = map platformAppKey t"
  by (induction t) (auto simp: sql_update_def)

lemma enrichAppMetadata_keys:
  "map platformAppKey (enrichAppMetadata e a t) = map platformAppKey t"
  by (auto simp: enrichAppMetadata_def Let_def sql_update_keys
           split: option.splits provider_result.splits)

lemma enrich_loop_keys: "map platformAppKey (enrich_loop e as t) = map platformAppKey t"
  by (induction as arbitrary: t) (auto simp: enrichAppMetadata_keys)

lemma unique_keys_map:
  "unique_keys t = distinct (filter (\<lambda>k. k \<noteq> SNull) (map platformAppKey t))"
  by (simp add: unique_keys_def filter_map comp_def)

lemma unique_keys_enrich_pass: "unique_keys t \<Longrightarrow> unique_keys (enrich_pass e t)"
  by (simp add: unique_keys_map enrich_pass_def enrich_loop_keys)

section \<open>Properties of the start-up\<close>

text \<open>
  Without one of the two flags the program exits with code 1, whatever the
  environment holds; with both flags given and non-empty the environment decides
  only through \<open>CLIENT_SECRET\<close>; the fallback to \<open>TENANT_ID\<close> is reached only by a
  flag given with an empty value.
\<close>

lemma startup_requires_flags:
  "flag_tenantId cl = None \<or> flag_clientId cl = None \<Longrightarrow> startup cl = Exit 1"
  by (auto simp: startup_def program_parse_def split: option.splits)

lemma startup_with_flags:
  "flag_tenantId cl = Some tid \<Longrightarrow> flag_clientId cl = Some cid \<Longrightarrow>
     tid \<noteq> [] \<Longrightarrow> cid \<noteq> [] \<Longrightarrow>
     startup cl = (if truthy (env_CLIENT_SECRET cl)
                   then GetToken (Some tid) (Some cid) (env_CLIENT_SECRET cl) else Exit 1)"
  by (simp add: startup_def program_parse_def js_or_def truthy_def)

lemma startup_empty_flag:
  "flag_tenantId cl = Some [] \<Longrightarrow> flag_clientId cl = Some cid \<Longrightarrow> cid \<noteq> [] \<Longrightarrow>
     startup cl = (if truthy (env_TENANT_ID cl) \<and> truthy (env_CLIENT_SECRET cl)
                   then GetToken (env_TENANT_ID cl) (Some cid) (env_CLIENT_SECRET cl)
                   else Exit 1)"
  by (simp add: startup_def program_parse_def js_or_def truthy_def)

text \<open>
  Claim C8 says that the program goes on with \<open>TENANT_ID\<close> and \<open>CLIENT_ID\<close> from the
  environment when the flags are absent. The code does not: with both flags absent
  and all three environment variables set, the required-option check of the parser
  ends the process with exit code 1, before the lines that would fall back to the
  environment are reached.
\<close>

theorem startup_flags_absent_exit:
  "startup \<lparr>flag_tenantId = None, flag_clientId = None,
            env_TENANT_ID = Some ''tenant'', env_CLIENT_ID = Some ''client'',
            env_CLIENT_SECRET = Some ''secret''\<rparr> = Exit 1"
  by (simp add: startup_def program_parse_def)

text \<open>In particular the program does not go on to request a token with the values of the environment.\<close>

theorem startup_flags_absent_exit_witness:
  "startup \<lparr>flag_tenantId = None, flag_clientId = None,
            env_TENANT_ID = Some ''tenant'', env_CLIENT_ID = Some ''client'',
            env_CLIENT_SECRET = Some ''secret''\<rparr>
     \<noteq> GetToken (Some ''tenant'') (Some ''client'') (Some ''secret'')"
  using startup_flags_absent_exit by simp

end
